theory Spec2Isabelle
  imports Main "HOL-Library.Word" "HOL-Library.Char_ord" "HOL-Library.List_Lexorder"
begin

section \<open>Values: the getter's variant and what SQLite stores\<close>

text \<open>
  A C++ \<^verbatim>\<open>double\<close> is carried as its 64-bit pattern: the mapper never computes with it,
  it only hands it on to \<^verbatim>\<open>sqlite3_bind_double\<close>.
\<close>

datatype double = Double "64 word"

text \<open>
  \<^verbatim>\<open>std::variant<std::string, int, double>\<close>, the result type of every getter of a field
  mapping. \<^verbatim>\<open>int\<close> is the 32-bit machine integer.
\<close>

datatype variant = VString string | VInt "32 word" | VDouble double



text \<open>
  The last argument of \<^verbatim>\<open>sqlite3_bind_text\<close>: \<^verbatim>\<open>insert\<close> passes \<^verbatim>\<open>SQLITE_TRANSIENT\<close>,
  \<^verbatim>\<open>update\<close> passes \<^verbatim>\<open>SQLITE_STATIC\<close>.
\<close>

datatype destructor = SQLITE_STATIC | SQLITE_TRANSIENT

text \<open>One call of the \<^verbatim>\<open>sqlite3_bind_*\<close> family: the parameter index and what is bound.\<close>

datatype bind_call =
    sqlite3_bind_int int "32 word"
  | sqlite3_bind_double int double
  | sqlite3_bind_text int string destructor





section \<open>Strings\<close>

text \<open>
  \<^verbatim>\<open>std::string::pop_back\<close> on an empty string is undefined behaviour: \<open>None\<close>.
\<close>

definition pop_back :: "string \<Rightarrow> string option" where
  "pop_back s = (if s = [] then None else Some (butlast s))"

text \<open>
  What a C function reads through \<^verbatim>\<open>s.c_str()\<close> with length \<^verbatim>\<open>-1\<close>: the bytes before
  the first NUL. Both \<^verbatim>\<open>sqlite3_prepare_v2\<close> and \<^verbatim>\<open>sqlite3_bind_text\<close> are called so.
\<close>

definition c_str :: "string \<Rightarrow> string" where
  "c_str s = takeWhile (\<lambda>c. c \<noteq> CHR 0x00) s"

section \<open>The field mapping\<close>

text \<open>
  \<^verbatim>\<open>std::map<std::string, std::function<variant(const T&)>>\<close> is modelled by the sequence
  of its entries in iteration order. A \<^verbatim>\<open>std::map\<close> iterates in strictly ascending key
  order (\<^verbatim>\<open>std::less<std::string>\<close>: lexicographic on unsigned bytes), which \<open>std_map\<close>
  states; whatever holds of every entry sequence holds of every \<^verbatim>\<open>std::map\<close>.
\<close>

type_synonym 'r getter = "'r \<Rightarrow> variant"

type_synonym 'r field_mapping = "(string \<times> 'r getter) list"

definition std_map :: "'r field_mapping \<Rightarrow> bool" where
  "std_map fieldMapping = sorted_wrt (<) (map fst fieldMapping)"

section \<open>Building the SQL text\<close>

text \<open>The first loop of \<^verbatim>\<open>insert\<close> (database.hpp, lines 98 to 101).\<close>

fun insert_columns :: "'r field_mapping \<Rightarrow> string \<Rightarrow> string \<Rightarrow> string \<times> string" where
  "insert_columns [] sql placeholders = (sql, placeholders)"
| "insert_columns ((columnName, getter) # rest) sql placeholders =
     insert_columns rest (sql @ columnName @ '','') (placeholders @ ''?, '')"

text \<open>Lines 96 to 106 of database.hpp: the statement text \<^verbatim>\<open>insert\<close> prepares.\<close>

definition insert_sql :: "string \<Rightarrow> 'r field_mapping \<Rightarrow> string option" where
  "insert_sql tableName fieldMapping =
     (case insert_columns fieldMapping (''INSERT INTO '' @ tableName @ ''( '') '' VALUES ('' of
        (sql, placeholders) \<Rightarrow>
          (case pop_back sql of
             None \<Rightarrow> None
           | Some sql1 \<Rightarrow>
               (case pop_back placeholders of
                  None \<Rightarrow> None
                | Some placeholders1 \<Rightarrow> Some (sql1 @ placeholders1))))"

text \<open>The first loop of \<^verbatim>\<open>update\<close> (lines 174 to 176).\<close>

fun update_columns :: "'r field_mapping \<Rightarrow> string \<Rightarrow> string" where
  "update_columns [] sql = sql"
| "update_columns ((columnName, getter) # rest) sql =
     update_columns rest (sql @ columnName @ ''?, '')"

text \<open>Lines 173 to 180 of database.hpp: the statement text \<^verbatim>\<open>update\<close> prepares.\<close>

definition update_sql :: "string \<Rightarrow> 'r field_mapping \<Rightarrow> string option" where
  "update_sql tableName fieldMapping =
     (case pop_back (update_columns fieldMapping (''UPDATE '' @ tableName @ '' SET '')) of
        None \<Rightarrow> None
      | Some sql1 \<Rightarrow>
          (case pop_back sql1 of
             None \<Rightarrow> None
           | Some sql2 \<Rightarrow> Some (sql2 @ '' WHERE id = ?;'')))"

section \<open>Binding the parameters\<close>

text \<open>
  The body of both binding loops: the branch on the variant's runtime tag, in the
  source's order (int, double, string). The three alternatives are all there are, so one
  call is made for every entry and the index advances by one each time.
\<close>

fun bind_variant :: "destructor \<Rightarrow> int \<Rightarrow> variant \<Rightarrow> bind_call" where
  "bind_variant d index (VInt n) = sqlite3_bind_int index n"
| "bind_variant d index (VDouble x) = sqlite3_bind_double index x"
| "bind_variant d index (VString strValue) = sqlite3_bind_text index (c_str strValue) d"

text \<open>
  The binding loops (lines 116 to 127 and 190 to 201): the calls made, and the index
  after the loop. \<^verbatim>\<open>index\<close> is a C \<^verbatim>\<open>int\<close>; a mapping would need 2^31 entries to
  overflow it, so it is an unbounded integer here.
\<close>

fun bind_loop :: "destructor \<Rightarrow> 'r \<Rightarrow> 'r field_mapping \<Rightarrow> int \<Rightarrow> bind_call list \<times> int" where
  "bind_loop d data [] index = ([], index)"
| "bind_loop d data ((columnName, getter) # rest) index =
     (let value = getter data;
          call = bind_variant d index value;
          (calls, index') = bind_loop d data rest (index + 1)
      in (call # calls, index'))"

definition insert_binds :: "'r \<Rightarrow> 'r field_mapping \<Rightarrow> bind_call list" where
  "insert_binds data fieldMapping = fst (bind_loop SQLITE_TRANSIENT data fieldMapping 1)"

text \<open>Lines 188 to 203: the mapping's values, then \<^verbatim>\<open>sqlite3_bind_int(stmt, index++, id)\<close>.\<close>

definition update_binds :: "32 word \<Rightarrow> 'r \<Rightarrow> 'r field_mapping \<Rightarrow> bind_call list" where
  "update_binds id' data fieldMapping =
     (case bind_loop SQLITE_STATIC data fieldMapping 1 of
        (calls, index) \<Rightarrow> calls @ [sqlite3_bind_int index id'])"

section \<open>The store\<close>

text \<open>
  SQLite is outside the repository: it is a parameter of every operation. A connection
  state has some type \<open>'db\<close>; the library is the record of the functions the code calls.
  A prepared statement is identified with its text and its bind calls, which is all
  \<^verbatim>\<open>sqlite3_step\<close> gets to see. \<^verbatim>\<open>sqlite3_prepare_v2\<close> and \<^verbatim>\<open>sqlite3_step\<close> return
  their result code together with the message \<^verbatim>\<open>sqlite3_errmsg\<close> would then give, which
  is never a null pointer. \<^verbatim>\<open>sqlite3_exec\<close> returns its result code and what it left in
  \<^verbatim>\<open>errMsg\<close>: a message, or \<open>None\<close> for the null pointer. It sets the pointer to null
  when it succeeds, and does not touch it when it refuses the handle itself
  (\<^verbatim>\<open>SQLITE_MISUSE\<close>, as on a handle whose open failed): \<^verbatim>\<open>init\<close> starts with a null
  \<^verbatim>\<open>errMsg\<close>, and a handle is refused from the first call on or never, so the pointer
  is null then as well.
\<close>

definition SQLITE_OK :: int where
  "SQLITE_OK = 0"

definition SQLITE_DONE :: int where
  "SQLITE_DONE = 101"

record 'db sqlite3 =
  sqlite3_prepare_v2 :: "'db \<Rightarrow> string \<Rightarrow> int \<times> string"
  sqlite3_step :: "'db \<Rightarrow> string \<Rightarrow> bind_call list \<Rightarrow> int \<times> string \<times> 'db"
  sqlite3_changes :: "'db \<Rightarrow> int"
  sqlite3_exec :: "'db \<Rightarrow> string \<Rightarrow> int \<times> string option \<times> 'db"

text \<open>The library calls an operation makes, in order, with their arguments.\<close>

datatype api_call =
    Prepare string
  | Bind bind_call
  | Step
  | Changes
  | Finalize
  | Exec string

text \<open>
  What an operation leaves behind: the value it returns, the lines it wrote to
  \<^verbatim>\<open>std::cerr\<close>, the library calls it made and the connection state.
\<close>

record 'db session =
  cerr :: "string list"
  trace :: "api_call list"
  conn :: "'db"

record 'db outcome = "'db session" +
  returned :: bool

text \<open>
  \<^verbatim>\<open>init\<close> streams \<^verbatim>\<open>errMsg\<close>, a \<^verbatim>\<open>char*\<close> that can be null. Streaming a null
  \<^verbatim>\<open>char*\<close> is outside the contract of \<^verbatim>\<open>operator<<\<close>; the standard library of the
  compiler the Makefile names (g++) then sets the stream's \<^verbatim>\<open>badbit\<close>, after which
  every output to the stream is dropped. \<open>cerr_bad\<close> is that bit.
\<close>

record 'db init_session = "'db session" +
  cerr_bad :: bool

text \<open>The statement texts handed to \<^verbatim>\<open>sqlite3_prepare_v2\<close>, and the bind calls, of a trace.\<close>

fun prepared_texts :: "api_call list \<Rightarrow> string list" where
  "prepared_texts [] = []"
| "prepared_texts (Prepare sql # cs) = sql # prepared_texts cs"
| "prepared_texts (c # cs) = prepared_texts cs"

fun bind_calls :: "api_call list \<Rightarrow> bind_call list" where
  "bind_calls [] = []"
| "bind_calls (Bind b # cs) = b # bind_calls cs"
| "bind_calls (c # cs) = bind_calls cs"

section \<open>insert and update\<close>

text \<open>
  \<^verbatim>\<open>Database::insert\<close> (database.hpp, lines 95 to 137). \<open>None\<close> is undefined behaviour
  while the text is built.
\<close>

definition Database_insert ::
  "'db sqlite3 \<Rightarrow> 'db \<Rightarrow> string \<Rightarrow> 'r \<Rightarrow> 'r field_mapping \<Rightarrow> 'db outcome option" where
  "Database_insert api db tableName data fieldMapping =
     (case insert_sql tableName fieldMapping of
        None \<Rightarrow> None
      | Some sql \<Rightarrow>
          (case sqlite3_prepare_v2 api db (c_str sql) of
             (rc, errmsg) \<Rightarrow>
               if rc \<noteq> SQLITE_OK then
                 Some \<lparr>cerr = [''Error preparing insert statement: '' @ errmsg],
                       trace = [Prepare (c_str sql)],
                       conn = db,
                       returned = False\<rparr>
               else
                 (let binds = insert_binds data fieldMapping;
                      calls = Prepare (c_str sql) # map Bind binds @ [Step]
                  in case sqlite3_step api db (c_str sql) binds of
                       (rc1, errmsg1, db1) \<Rightarrow>
                         if rc1 \<noteq> SQLITE_DONE then
                           Some \<lparr>cerr = [''Error executing INSERT statement: '' @ errmsg1],
                                 trace = calls @ [Finalize],
                                 conn = db1,
                                 returned = False\<rparr>
                         else
                           Some \<lparr>cerr = [],
                                 trace = calls @ [Finalize],
                                 conn = db1,
                                 returned = True\<rparr>)))"

text \<open>\<^verbatim>\<open>Database::update\<close> (database.hpp, lines 172 to 218).\<close>

definition Database_update ::
  "'db sqlite3 \<Rightarrow> 'db \<Rightarrow> string \<Rightarrow> 32 word \<Rightarrow> 'r \<Rightarrow> 'r field_mapping \<Rightarrow> 'db outcome option" where
  "Database_update api db tableName id' data fieldMapping =
     (case update_sql tableName fieldMapping of
        None \<Rightarrow> None
      | Some sql \<Rightarrow>
          (case sqlite3_prepare_v2 api db (c_str sql) of
             (rc, errmsg) \<Rightarrow>
               if rc \<noteq> SQLITE_OK then
                 Some \<lparr>cerr = [''Error preparing UPDATE statement: '' @ errmsg],
                       trace = [Prepare (c_str sql)],
                       conn = db,
                       returned = False\<rparr>
               else
                 (let binds = update_binds id' data fieldMapping;
                      calls = Prepare (c_str sql) # map Bind binds @ [Step]
                  in case sqlite3_step api db (c_str sql) binds of
                       (rc1, errmsg1, db1) \<Rightarrow>
                         if rc1 \<noteq> SQLITE_DONE then
                           Some \<lparr>cerr = [''Error executing update statement: '' @ errmsg1],
                                 trace = calls @ [Finalize],
                                 conn = db1,
                                 returned = False\<rparr>
                         else
                           (let changes = sqlite3_changes api db1
                            in Some \<lparr>cerr = (if changes = 0
                                             then [''No rows were updated. Check if the ID exists.'']
                                             else []),
                                     trace = calls @ [Changes, Finalize],
                                     conn = db1,
                                     returned = True\<rparr>))))"

section \<open>remove\<close>

text \<open>
  Modelled from the spec: the body of \<^verbatim>\<open>Database::remove\<close>, which database.hpp declares
  (line 238) and no source file defines. The spec: it builds
  \<^verbatim>\<open>DELETE FROM table WHERE id = ?\<close>, binds the id, executes, and fails if the store rejects
  the statement. Preparation and execution are the two places where the store can reject
  it, as in \<^verbatim>\<open>insert\<close> and \<^verbatim>\<open>update\<close>; the diagnostic written is the store's message.
\<close>

definition Database_remove :: "'db sqlite3 \<Rightarrow> 'db \<Rightarrow> string \<Rightarrow> 32 word \<Rightarrow> 'db outcome" where
  "Database_remove api db tableName id' =
     (let sql = ''DELETE FROM '' @ tableName @ '' WHERE id = ?''
      in case sqlite3_prepare_v2 api db (c_str sql) of
           (rc, errmsg) \<Rightarrow>
             if rc \<noteq> SQLITE_OK then
               \<lparr>cerr = [errmsg], trace = [Prepare (c_str sql)], conn = db, returned = False\<rparr>
             else
               (let binds = [sqlite3_bind_int 1 id'];
                    calls = Prepare (c_str sql) # map Bind binds @ [Step, Finalize]
                in case sqlite3_step api db (c_str sql) binds of
                     (rc1, errmsg1, db1) \<Rightarrow>
                       if rc1 \<noteq> SQLITE_DONE then
                         \<lparr>cerr = [errmsg1], trace = calls, conn = db1, returned = False\<rparr>
                       else
                         \<lparr>cerr = [], trace = calls, conn = db1, returned = True\<rparr>))"

section \<open>init\<close>

text \<open>The statement texts of \<^verbatim>\<open>Database::init\<close>, as the adjacent C literals spell them.\<close>

definition foreignKeySupport :: string where
  "foreignKeySupport = ''PRAGMA foreign_keys = ON;''"

definition categoryTableQuery :: string where
  "categoryTableQuery =
     ''CREATE TABLE IF NOT EXISTS category ('' @
     ''id INTEGER PRIMARY KEY AUTOINCREMENT, '' @
     ''name TEXT NOT NULL, '' @
     ''description TEXT NOT NULL);''"

definition supplierTableQuery :: string where
  "supplierTableQuery =
     ''CREATE TABLE IF NOT EXISTS suppliers ('' @
     ''id INTEGER PRIMARY KEY AUTOINCREMENT, '' @
     ''name TEXT NOT NULL, '' @
     ''address TEXT NOT NULL, '' @
     ''phone TEXT, '' @
     ''email TEXT);''"

definition itemTableQuery :: string where
  "itemTableQuery =
     ''CREATE TABLE IF NOT EXISTS item ('' @
     ''id INTEGER PRIMARY KEY AUTOINCREMENT, '' @
     ''name TEXT NOT NULL, '' @
     ''description TEXT NOT NULL, '' @
     ''category_id INTEGRE NOT NULL, '' @
     ''quantity INTEGER NOT NULL, '' @
     ''unit_measurement TEXT NOT NULL, '' @
     ''unit_price REAL NOT NULL, '' @
     ''price REAL NOT NULL, '' @
     ''supplier_id INTEGER NOT NULL, '' @
     ''FOREIGN KEY(category_id) REFERENCES category(id), '' @
     ''FOREIGN KEY(supplier_id) REFERENCES suppliers(id)'' @
     '');''"

definition userTableQuery :: string where
  "userTableQuery =
     ''CREATE TABLE IF NOT EXISTS user ('' @
     ''id INTEGER PRIMARY KEY AUTOINCREMENT, '' @
     ''username TEXT NOT NULL, '' @
     ''password TEXT NOT NULL, '' @
     ''role TEXT NOT NULL, '' @
     ''contact_info TEXT NOT NULL'' @
     '');''"

definition transactionTableQuery :: string where
  "transactionTableQuery =
     ''CREATE TABLE IF NOT EXISTS transaction_records ('' @
     ''id INTEGER PRIMARY KEY AUTOINCREMENT, '' @
     ''item_id INTEGER NOT NULL, '' @
     ''transaction_type TEXT NOT NULL, '' @
     ''quantity INTEGER NOT NULL, '' @
     ''transaction_date TEXT NOT NULL, '' @
     ''user_id INTEGER NOT NULL, '' @
     ''remarks TEXT, '' @
     ''FOREIGN KEY(item_id) REFERENCES item(id), '' @
     ''FOREIGN KEY(user_id) REFERENCES user(id)'' @
     '');''"

text \<open>
  One block of \<^verbatim>\<open>init\<close>: \<^verbatim>\<open>sqlite3_exec\<close>, and on any result but \<^verbatim>\<open>SQLITE_OK\<close>
  the statement \<^verbatim>\<open>cerr << label << errMsg << endl\<close>. With a message it writes one line.
  With \<^verbatim>\<open>errMsg\<close> null (no block checks for it) the label is written, left without
  its line end, and the stream goes bad. On a bad stream nothing is written. Nothing
  returns early: the next block always runs.
\<close>

definition exec_logged ::
  "'db sqlite3 \<Rightarrow> string \<Rightarrow> string \<Rightarrow> 'db init_session \<Rightarrow> 'db init_session" where
  "exec_logged api label sql s =
     (case sqlite3_exec api (conn s) sql of
        (execute_sql, errMsg, db1) \<Rightarrow>
          if execute_sql \<noteq> SQLITE_OK \<and> \<not> cerr_bad s then
            (case errMsg of
               Some msg \<Rightarrow>
                 \<lparr>cerr = cerr s @ [label @ msg], trace = trace s @ [Exec sql], conn = db1,
                  cerr_bad = False\<rparr>
             | None \<Rightarrow>
                 \<lparr>cerr = cerr s @ [label], trace = trace s @ [Exec sql], conn = db1,
                  cerr_bad = True\<rparr>)
          else
            \<lparr>cerr = cerr s, trace = trace s @ [Exec sql], conn = db1,
             cerr_bad = cerr_bad s\<rparr>)"

text \<open>\<^verbatim>\<open>Database::init\<close> (database.cpp, lines 16 to 107): six blocks in a row.\<close>

definition Database_init :: "'db sqlite3 \<Rightarrow> 'db \<Rightarrow> 'db init_session" where
  "Database_init api db =
     (let s0 = \<lparr>cerr = [], trace = [], conn = db, cerr_bad = False\<rparr>;
          s1 = exec_logged api ''Error enabling foreign keys: '' foreignKeySupport s0;
          s2 = exec_logged api ''Error Creating Category Table: '' categoryTableQuery s1;
          s3 = exec_logged api ''Error Creating Supplier Table: '' supplierTableQuery s2;
          s4 = exec_logged api ''Error Creating Items Table: '' itemTableQuery s3;
          s5 = exec_logged api ''Error Creating User Table: '' userTableQuery s4;
          s6 = exec_logged api ''Error Creating Transaction Table: '' transactionTableQuery s5
      in s6)"

section \<open>The statement texts of the specification\<close>

text \<open>Strings separated by \<open>sep\<close>: \<open>join '', '' [a, b, c]\<close> is \<open>a, b, c\<close>.\<close>

fun join :: "string \<Rightarrow> string list \<Rightarrow> string" where
  "join sep [] = []"
| "join sep [x] = x"
| "join sep (x # y # ys) = x @ sep @ join sep (y # ys)"

text \<open>
  The specification's \<^verbatim>\<open>INSERT INTO table (c1, c2, ...) VALUES (?, ?, ...)\<close>, written from
  its words and not from the code.
\<close>

definition spec_insert_sql :: "string \<Rightarrow> string list \<Rightarrow> string" where
  "spec_insert_sql tableName columns =
     ''INSERT INTO '' @ tableName @ '' ('' @ join '', '' columns @ '') VALUES ('' @
     join '', '' (replicate (length columns) ''?'') @ '')''"

text \<open>
  The specification's \<^verbatim>\<open>UPDATE table SET c1 = ?, c2 = ?, ... WHERE id = ?\<close>, written from
  its words and not from the code.
\<close>

definition spec_update_sql :: "string \<Rightarrow> string list \<Rightarrow> string" where
  "spec_update_sql tableName columns =
     ''UPDATE '' @ tableName @ '' SET '' @ join '', '' (map (\<lambda>c. c @ '' = ?'') columns) @
     '' WHERE id = ?''"


section \<open>What the store is expected to do\<close>

text \<open>
  The results the store gives to statements executed one after the other, each on the
  state the one before left.
\<close>

fun exec_results ::
  "'db sqlite3 \<Rightarrow> 'db \<Rightarrow> string list \<Rightarrow> (int \<times> string option) list" where
  "exec_results api db [] = []"
| "exec_results api db (sql # sqls) =
     (case sqlite3_exec api db sql of
        (rc, errMsg, db1) \<Rightarrow> (rc, errMsg) # exec_results api db1 sqls)"

text \<open>
  What a run of labelled statements leaves on \<^verbatim>\<open>std::cerr\<close>, given the results: a line
  for every rejected statement that comes with a message, up to the first rejected
  statement that comes without one, of which only the label is left.
\<close>

fun logged :: "(string \<times> int \<times> string option) list \<Rightarrow> string list" where
  "logged [] = []"
| "logged ((label, rc, errMsg) # rest) =
     (if rc = SQLITE_OK then logged rest
      else
        (case errMsg of
           Some msg \<Rightarrow> (label @ msg) # logged rest
         | None \<Rightarrow> [label]))"

text \<open>
  The table a statement of the form \<^verbatim>\<open>CREATE TABLE IF NOT EXISTS name ...\<close> names; \<open>None\<close>
  for a statement of any other form.
\<close>

definition create_table_name :: "string \<Rightarrow> string option" where
  "create_table_name sql =
     (if take 27 sql = ''CREATE TABLE IF NOT EXISTS ''
      then Some (takeWhile (\<lambda>c. c \<noteq> CHR '' '') (drop 27 sql))
      else None)"

text \<open>
  The contract of a store that honours "create if absent" and the foreign-key switch,
  seen through two observations of a connection state: the tables of its schema (name
  and definition) and whether foreign keys are enforced.
  \<^item> Creating a table that exists succeeds and changes neither observation.
  \<^item> A creation that succeeds leaves the table in the schema, drops no table and does
    not switch enforcement off.
  \<^item> Switching enforcement on where it is on succeeds and changes neither observation;
    where it succeeds, enforcement is on and no table is dropped.
\<close>

definition create_if_absent_store ::
  "'db sqlite3 \<Rightarrow> ('db \<Rightarrow> (string \<times> string) list) \<Rightarrow> ('db \<Rightarrow> bool) \<Rightarrow> bool" where
  "create_if_absent_store api schema fk \<longleftrightarrow>
     (\<forall>db sql n. create_table_name sql = Some n \<longrightarrow>
        (case sqlite3_exec api db sql of
           (rc, errMsg, db1) \<Rightarrow>
             (n \<in> fst ` set (schema db) \<longrightarrow>
                rc = SQLITE_OK \<and> schema db1 = schema db \<and> fk db1 = fk db) \<and>
             (rc = SQLITE_OK \<longrightarrow>
                n \<in> fst ` set (schema db1) \<and>
                fst ` set (schema db) \<subseteq> fst ` set (schema db1) \<and>
                (fk db \<longrightarrow> fk db1)))) \<and>
     (\<forall>db.
        (case sqlite3_exec api db foreignKeySupport of
           (rc, errMsg, db1) \<Rightarrow>
             (fk db \<longrightarrow> rc = SQLITE_OK \<and> schema db1 = schema db \<and> fk db1) \<and>
             (rc = SQLITE_OK \<longrightarrow>
                fk db1 \<and> fst ` set (schema db) \<subseteq> fst ` set (schema db1))))"

text \<open>
  The contract of a store whose change count is honest for \<^verbatim>\<open>UPDATE\<close> statements: one
  that completes and reports zero changed rows has left the stored rows as they were.
\<close>

definition zero_changes_store :: "'db sqlite3 \<Rightarrow> ('db \<Rightarrow> 'rows) \<Rightarrow> bool" where
  "zero_changes_store api rows \<longleftrightarrow>
     (\<forall>db sql binds.
        take 7 sql = ''UPDATE '' \<longrightarrow>
        (case sqlite3_step api db sql binds of
           (rc, errmsg, db1) \<Rightarrow>
             rc = SQLITE_DONE \<and> sqlite3_changes api db1 = 0 \<longrightarrow> rows db1 = rows db))"

section \<open>Small stores\<close>

text \<open>
  A store with one table, for running \<^verbatim>\<open>update\<close> and \<^verbatim>\<open>remove\<close>: the state is the rows
  (an id, and whether a row of another table references it) and the number of rows the
  last statement changed. It accepts any text that starts as an \<^verbatim>\<open>UPDATE\<close> or a
  \<^verbatim>\<open>DELETE\<close>, takes the last bound integer as the id, and refuses to delete a
  referenced row with \<^verbatim>\<open>SQLITE_CONSTRAINT\<close> (19).
\<close>

type_synonym rows_db = "(32 word \<times> bool) list \<times> int"

fun bound_id :: "bind_call list \<Rightarrow> 32 word option" where
  "bound_id [] = None"
| "bound_id [sqlite3_bind_int k n] = Some n"
| "bound_id [b] = None"
| "bound_id (b # bs) = bound_id bs"

definition rows_step :: "rows_db \<Rightarrow> string \<Rightarrow> bind_call list \<Rightarrow> int \<times> string \<times> rows_db" where
  "rows_step db sql binds =
     (case bound_id binds of
        None \<Rightarrow> (1, ''no id bound'', db)
      | Some i \<Rightarrow>
          if take 7 sql = ''UPDATE '' then
            (101, [], (fst db, int (length (filter (\<lambda>r. fst r = i) (fst db)))))
          else if take 12 sql = ''DELETE FROM '' then
            (if (i, True) \<in> set (fst db) then (19, ''FOREIGN KEY constraint failed'', db)
             else (101, [], (filter (\<lambda>r. fst r \<noteq> i) (fst db),
                             int (length (filter (\<lambda>r. fst r = i) (fst db))))))
          else (1, ''not a statement'', db))"

definition rows_store :: "rows_db sqlite3" where
  "rows_store =
     \<lparr>sqlite3_prepare_v2 =
        (\<lambda>db sql. if take 12 sql = ''DELETE FROM '' \<or> take 7 sql = ''UPDATE ''
                   then (0, []) else (1, ''syntax error'')),
      sqlite3_step = rows_step,
      sqlite3_changes = snd,
      sqlite3_exec = (\<lambda>db sql. (1, Some ''not supported'', db))\<rparr>"

text \<open>
  A store that only keeps a schema, for running \<^verbatim>\<open>init\<close>: the tables created so far
  (name and statement) and the foreign-key switch. It creates a table if absent, switches
  enforcement on, and rejects every other statement.
\<close>

type_synonym schema_db = "(string \<times> string) list \<times> bool"

definition schema_exec :: "schema_db \<Rightarrow> string \<Rightarrow> int \<times> string option \<times> schema_db" where
  "schema_exec db sql =
     (if sql = foreignKeySupport then (0, None, (fst db, True))
      else
        (case create_table_name sql of
           None \<Rightarrow> (1, Some ''unsupported statement'', db)
         | Some n \<Rightarrow>
             if n \<in> fst ` set (fst db) then (0, None, db)
             else (0, None, (fst db @ [(n, sql)], snd db))))"

definition schema_store :: "schema_db sqlite3" where
  "schema_store =
     \<lparr>sqlite3_prepare_v2 = (\<lambda>db sql. (1, ''not supported'')),
      sqlite3_step = (\<lambda>db sql binds. (1, ''not supported'', db)),
      sqlite3_changes = (\<lambda>db. 0),
      sqlite3_exec = schema_exec\<rparr>"


text \<open>
  A handle whose open failed (the constructor reports it and goes on): every call is
  refused with \<^verbatim>\<open>SQLITE_MISUSE\<close> (21), and \<^verbatim>\<open>sqlite3_exec\<close> leaves \<^verbatim>\<open>errMsg\<close> null.
\<close>

definition unopened_store :: "unit sqlite3" where
  "unopened_store =
     \<lparr>sqlite3_prepare_v2 = (\<lambda>db sql. (21, ''bad parameter or other API misuse'')),
      sqlite3_step = (\<lambda>db sql binds. (21, ''bad parameter or other API misuse'', ())),
      sqlite3_changes = (\<lambda>db. 0),
      sqlite3_exec = (\<lambda>db sql. (21, None, ()))\<rparr>"

section \<open>Closed forms of the loops\<close>

lemma insert_columns_eq:
  "insert_columns m sql ph =
     (sql @ concat (map (\<lambda>c. c @ '','') (map fst m)),
      ph @ concat (map (\<lambda>c. c @ '', '') (replicate (length m) ''?'')))"
  by (induction m arbitrary: sql ph) auto

lemma update_columns_eq:
  "update_columns m sql = sql @ concat (map (\<lambda>c. c @ '', '') (map (\<lambda>c. c @ ''?'') (map fst m)))"
  by (induction m arbitrary: sql) auto

lemma concat_sep_join:
  "xs \<noteq> [] \<Longrightarrow> concat (map (\<lambda>c. c @ sep) xs) = join sep xs @ sep"
  by (induction sep xs rule: join.induct) auto

lemma pop_back_snoc: "pop_back (s @ [c]) = Some s"
  by (simp add: pop_back_def)

lemma insert_sql_nonempty:
  assumes "m \<noteq> []"
  shows "insert_sql t m =
     Some (''INSERT INTO '' @ t @ ''( '' @ join '','' (map fst m) @ '' VALUES ('' @
           join '', '' (replicate (length m) ''?'') @ '','')"
proof -
  have a: "concat (map (\<lambda>c. c @ '','') (map fst m)) = join '','' (map fst m) @ '',''"
    using assms by (intro concat_sep_join) simp
  have b: "concat (map (\<lambda>c. c @ '', '') (replicate (length m) ''?'')) =
        join '', '' (replicate (length m) ''?'') @ '', ''"
    using assms by (intro concat_sep_join) simp
  have p1: "pop_back (''INSERT INTO '' @ t @ ''( '' @ join '','' (map fst m) @ '','') =
     Some (''INSERT INTO '' @ t @ ''( '' @ join '','' (map fst m))"
    using pop_back_snoc [of "''INSERT INTO '' @ t @ ''( '' @ join '','' (map fst m)" "CHR '',''"]
    by simp
  have p2: "pop_back ('' VALUES ('' @ join '', '' (replicate (length m) ''?'') @ '', '') =
     Some ('' VALUES ('' @ join '', '' (replicate (length m) ''?'') @ '','')"
    using pop_back_snoc [of "'' VALUES ('' @ join '', '' (replicate (length m) ''?'') @ '',''" "CHR '' ''"]
    by simp
  show ?thesis
    unfolding insert_sql_def insert_columns_eq a b
    using p1 p2 by simp
qed

lemma update_sql_nonempty:
  assumes "m \<noteq> []"
  shows "update_sql t m =
     Some (''UPDATE '' @ t @ '' SET '' @ join '', '' (map (\<lambda>c. c @ ''?'') (map fst m)) @
           '' WHERE id = ?;'')"
proof -
  let ?body = "join '', '' (map (\<lambda>c. c @ ''?'') (map fst m))"
  have a: "concat (map (\<lambda>c. c @ '', '') (map (\<lambda>c. c @ ''?'') (map fst m))) = ?body @ '', ''"
    using assms by (intro concat_sep_join) simp
  have p1: "pop_back (''UPDATE '' @ t @ '' SET '' @ ?body @ '', '') =
      Some (''UPDATE '' @ t @ '' SET '' @ ?body @ '','')"
    using pop_back_snoc [of "''UPDATE '' @ t @ '' SET '' @ ?body @ '',''" "CHR '' ''"] by simp
  have p2: "pop_back (''UPDATE '' @ t @ '' SET '' @ ?body @ '','') =
      Some (''UPDATE '' @ t @ '' SET '' @ ?body)"
    using pop_back_snoc [of "''UPDATE '' @ t @ '' SET '' @ ?body" "CHR '',''"] by simp
  show ?thesis
    unfolding update_sql_def update_columns_eq a
    using p1 p2 by simp
qed

lemma insert_sql_empty: "insert_sql t [] = Some (''INSERT INTO '' @ t @ ''( VALUES '')"
proof -
  have p1: "pop_back (''INSERT INTO '' @ t @ ''( '') = Some (''INSERT INTO '' @ t @ ''('')"
    using pop_back_snoc [of "''INSERT INTO '' @ t @ ''(''" "CHR '' ''"] by simp
  have p2: "pop_back '' VALUES ('' = Some '' VALUES ''"
    by (simp add: pop_back_def)
  show ?thesis
    unfolding insert_sql_def using p1 p2 by simp
qed

lemma update_sql_empty: "update_sql t [] = Some (''UPDATE '' @ t @ '' SE WHERE id = ?;'')"
proof -
  have p1: "pop_back (''UPDATE '' @ t @ '' SET '') = Some (''UPDATE '' @ t @ '' SET'')"
    using pop_back_snoc [of "''UPDATE '' @ t @ '' SET''" "CHR '' ''"] by simp
  have p2: "pop_back (''UPDATE '' @ t @ '' SET'') = Some (''UPDATE '' @ t @ '' SE'')"
    using pop_back_snoc [of "''UPDATE '' @ t @ '' SE''" "CHR ''T''"] by simp
  show ?thesis
    unfolding update_sql_def using p1 p2 by simp
qed

lemma bind_loop_index: "snd (bind_loop d data m k) = k + int (length m)"
  by (induction m arbitrary: k) (auto simp: split_beta Let_def)

lemma bind_loop_length: "length (fst (bind_loop d data m k)) = length m"
  by (induction m arbitrary: k) (auto simp: split_beta Let_def)

lemma bind_loop_nth:
  "i < length m \<Longrightarrow>
   fst (bind_loop d data m k) ! i = bind_variant d (k + int i) (snd (m ! i) data)"
proof (induction m arbitrary: k i)
  case Nil
  then show ?case by simp
next
  case (Cons e m)
  obtain c g where e: "e = (c, g)" by (cases e)
  show ?case
  proof (cases i)
    case 0
    then show ?thesis by (simp add: e split_beta Let_def)
  next
    case (Suc j)
    with Cons.prems have "j < length m" by simp
    from Cons.IH [OF this, of "k + 1"] show ?thesis
      by (simp add: e Suc split_beta Let_def add.assoc)
  qed
qed




lemma length_join:
  "length (join sep xs) = sum_list (map length xs) + length sep * (length xs - 1)"
  by (induction sep xs rule: join.induct) auto

lemma last_differs: "last xs \<noteq> last ys \<Longrightarrow> xs \<noteq> ys"
  by blast

lemma update_binds_eq:
  "update_binds i data m =
     fst (bind_loop SQLITE_STATIC data m 1) @ [sqlite3_bind_int (1 + int (length m)) i]"
  using bind_loop_index [of SQLITE_STATIC data m 1]
  by (simp add: update_binds_def split_beta)

lemma sum_list_assign:
  "sum_list (map length (map (\<lambda>c. c @ '' = ?'') cols)) =
   sum_list (map length (map (\<lambda>c. c @ ''?'') cols)) + 3 * length cols"
  by (induction cols) auto

lemma length_join_assign:
  "length (join sep (map (\<lambda>c. c @ '' = ?'') cols)) =
   length (join sep (map (\<lambda>c. c @ ''?'') cols)) + 3 * length cols"
  unfolding length_join sum_list_assign by simp

lemma update_binds_nth:
  assumes "k < length m"
  shows "update_binds i data m ! k = bind_variant SQLITE_STATIC (1 + int k) (snd (m ! k) data)"
  using assms by (simp add: update_binds_eq nth_append bind_loop_length bind_loop_nth)

lemma update_binds_last:
  "update_binds i data m ! length m = sqlite3_bind_int (1 + int (length m)) i"
  by (simp add: update_binds_eq nth_append bind_loop_length)

section \<open>The statement text of insert\<close>

text \<open>
  C1. The claim: for every non-empty field mapping and table name, \<^verbatim>\<open>insert\<close> builds
  \<^verbatim>\<open>INSERT INTO table (c1, c2, ...) VALUES (?, ?, ...)\<close>, both lists closed with a
  parenthesis and free of a trailing comma, one placeholder per key.
  The code builds another text: \<^verbatim>\<open>pop_back\<close> takes the comma off the column list and
  only the blank off the placeholder list, and no closing parenthesis is ever appended.
  The text has one placeholder per key, ends in a comma, and is never the specification's.
\<close>

theorem insert_sql_unclosed:
  assumes "fieldMapping \<noteq> []"
  shows "insert_sql tableName fieldMapping =
           Some (''INSERT INTO '' @ tableName @ ''( '' @ join '','' (map fst fieldMapping) @
                 '' VALUES ('' @ join '', '' (replicate (length fieldMapping) ''?'') @ '','') \<and>
         insert_sql tableName fieldMapping \<noteq>
           Some (spec_insert_sql tableName (map fst fieldMapping))"
proof -
  let ?code = "''INSERT INTO '' @ tableName @ ''( '' @ join '','' (map fst fieldMapping) @
                 '' VALUES ('' @ join '', '' (replicate (length fieldMapping) ''?'') @ '',''"
  have eq: "insert_sql tableName fieldMapping = Some ?code"
    using assms by (rule insert_sql_nonempty)
  have l1: "last ?code = CHR '',''" 
    by simp
  have l2: "last (spec_insert_sql tableName (map fst fieldMapping)) = CHR '')''"
    unfolding spec_insert_sql_def by simp
  have "?code \<noteq> spec_insert_sql tableName (map fst fieldMapping)"
    by (rule last_differs) (simp only: l1 l2, simp)
  with eq show ?thesis by simp
qed

theorem insert_sql_unclosed_witness:
  "insert_sql ''category''
     [(''description'', \<lambda>r. VString (snd r)), (''name'', \<lambda>r::string \<times> string. VString (fst r))] =
     Some ''INSERT INTO category( description,name VALUES (?, ?,'' \<and>
   spec_insert_sql ''category'' [''description'', ''name''] =
     ''INSERT INTO category (description, name) VALUES (?, ?)''"
  using insert_sql_unclosed
    [of "[(''description'', \<lambda>r. VString (snd r)), (''name'', \<lambda>r::string \<times> string. VString (fst r))]"
        "''category''"]
  by (simp add: spec_insert_sql_def)

section \<open>The statement text and the binding order of update\<close>

text \<open>
  C2. The claim: for every non-empty field mapping, table name and id, \<^verbatim>\<open>update\<close> builds
  \<^verbatim>\<open>UPDATE table SET c1 = ?, c2 = ?, ... WHERE id = ?\<close> and binds the mapping's values at
  the indices 1 to n in mapping order, then the id at the last index.
  The binding order is as claimed. The text is not: the loop appends the column name and
  \<^verbatim>\<open>"?, "\<close>, so every assignment lacks its \<^verbatim>\<open>" = "\<close>; the text differs from the
  specification's with or without the final semicolon.
\<close>

theorem update_sql_without_assignment:
  assumes "fieldMapping \<noteq> []"
  shows "update_sql tableName fieldMapping =
           Some (''UPDATE '' @ tableName @ '' SET '' @
                 join '', '' (map (\<lambda>c. c @ ''?'') (map fst fieldMapping)) @ '' WHERE id = ?;'') \<and>
         update_sql tableName fieldMapping \<noteq>
           Some (spec_update_sql tableName (map fst fieldMapping)) \<and>
         update_sql tableName fieldMapping \<noteq>
           Some (spec_update_sql tableName (map fst fieldMapping) @ '';'') \<and>
         length (update_binds id' data fieldMapping) = length fieldMapping + 1 \<and>
         (\<forall>k < length fieldMapping.
            update_binds id' data fieldMapping ! k =
              bind_variant SQLITE_STATIC (1 + int k) (snd (fieldMapping ! k) data)) \<and>
         update_binds id' data fieldMapping ! length fieldMapping =
           sqlite3_bind_int (1 + int (length fieldMapping)) id'"
proof -
  let ?cols = "map fst fieldMapping"
  let ?code = "''UPDATE '' @ tableName @ '' SET '' @
                 join '', '' (map (\<lambda>c. c @ ''?'') ?cols) @ '' WHERE id = ?;''"
  have eq: "update_sql tableName fieldMapping = Some ?code"
    using assms by (rule update_sql_nonempty)
  have n: "0 < length ?cols" using assms by simp
  have len: "length (spec_update_sql tableName ?cols @ '';'') = length ?code + 3 * length ?cols"
    using length_join_assign [of "'', ''" ?cols] by (simp add: spec_update_sql_def)
  have d1: "?code \<noteq> spec_update_sql tableName ?cols @ '';''"
  proof
    assume "?code = spec_update_sql tableName ?cols @ '';''"
    from arg_cong [OF this, of length] len n show False by linarith
  qed
  have len2: "length (spec_update_sql tableName ?cols) + 1 = length ?code + 3 * length ?cols"
    using len by simp
  have d2: "?code \<noteq> spec_update_sql tableName ?cols"
  proof
    assume "?code = spec_update_sql tableName ?cols"
    from arg_cong [OF this, of length] len2 n show False by linarith
  qed
  have l: "length (update_binds id' data fieldMapping) = length fieldMapping + 1"
    by (simp add: update_binds_eq bind_loop_length)
  from eq d1 d2 l show ?thesis
    by (simp add: update_binds_nth update_binds_last)
qed

theorem update_sql_without_assignment_witness:
  "update_sql ''category''
     [(''description'', \<lambda>r. VString (snd r)), (''name'', \<lambda>r::string \<times> string. VString (fst r))] =
     Some ''UPDATE category SET description?, name? WHERE id = ?;'' \<and>
   spec_update_sql ''category'' [''description'', ''name''] =
     ''UPDATE category SET description = ?, name = ? WHERE id = ?'' \<and>
   update_binds 1 (''Tools'', ''Hand tools'')
     [(''description'', \<lambda>r. VString (snd r)), (''name'', \<lambda>r::string \<times> string. VString (fst r))] =
     [sqlite3_bind_text 1 ''Hand tools'' SQLITE_STATIC, sqlite3_bind_text 2 ''Tools'' SQLITE_STATIC,
      sqlite3_bind_int 3 1]"
  using update_sql_without_assignment
    [of "[(''description'', \<lambda>r. VString (snd r)), (''name'', \<lambda>r::string \<times> string. VString (fst r))]"
        "''category''" 1 "(''Tools'', ''Hand tools'')"]
  by (simp add: spec_update_sql_def c_str_def update_binds_def)

section \<open>The empty field mapping\<close>

text \<open>
  C5. The claim: for the empty field mapping, \<^verbatim>\<open>insert\<close> and \<^verbatim>\<open>update\<close> build a
  syntactically valid statement and perform no out-of-range string operation.
  No \<^verbatim>\<open>pop_back\<close> meets an empty string (both results are \<open>Some\<close>), but with no column
  to take a separator from, \<^verbatim>\<open>pop_back\<close> eats the statement itself: the blank after the
  opening parenthesis and the parenthesis of \<^verbatim>\<open>VALUES (\<close> in \<^verbatim>\<open>insert\<close>, the blank and
  the \<^verbatim>\<open>T\<close> of \<^verbatim>\<open>SET\<close> in \<^verbatim>\<open>update\<close>. Neither text is a statement.
\<close>

theorem empty_mapping_statements:
  "insert_sql tableName [] = Some (''INSERT INTO '' @ tableName @ ''( VALUES '') \<and>
   update_sql tableName [] = Some (''UPDATE '' @ tableName @ '' SE WHERE id = ?;'')"
  by (simp add: insert_sql_empty update_sql_empty)

section \<open>The statement text does not depend on the values\<close>

lemma std_map_keys_unique:
  assumes "std_map m1" and "std_map m2" and "set (map fst m1) = set (map fst m2)"
  shows "map fst m1 = map fst m2"
  using assms unfolding std_map_def by (metis strict_sorted_equal)

lemma insert_sql_keys:
  assumes "map fst m1 = map fst m2"
  shows "insert_sql t m1 = insert_sql t m2"
proof -
  have "length m1 = length m2"
    using assms by (metis length_map)
  with assms have "insert_columns m1 sql ph = insert_columns m2 sql ph" for sql ph
    by (simp only: insert_columns_eq)
  then show ?thesis
    by (simp only: insert_sql_def)
qed

lemma update_sql_keys:
  assumes "map fst m1 = map fst m2"
  shows "update_sql t m1 = update_sql t m2"
proof -
  from assms have "update_columns m1 sql = update_columns m2 sql" for sql
    by (simp only: update_columns_eq)
  then show ?thesis
    by (simp only: update_sql_def)
qed

lemma prepared_texts_binds: "prepared_texts (map Bind bs @ cs) = prepared_texts cs"
  by (induction bs) simp_all


lemma insert_prepares:
  "map_option (\<lambda>out. prepared_texts (trace out)) (Database_insert api db t data m) =
   map_option (\<lambda>sql. [c_str sql]) (insert_sql t m)"
  by (simp add: Database_insert_def Let_def prepared_texts_binds
      split: option.splits prod.splits)

lemma update_prepares:
  "map_option (\<lambda>out. prepared_texts (trace out)) (Database_update api db t i data m) =
   map_option (\<lambda>sql. [c_str sql]) (update_sql t m)"
  by (simp add: Database_update_def Let_def prepared_texts_binds
      split: option.splits prod.splits)

text \<open>
  C10. The text \<^verbatim>\<open>insert\<close> and \<^verbatim>\<open>update\<close> build depends on the table name and the key
  set of the mapping only: two maps with the same keys, whatever their getters, their
  record types, the records and the ids, give the same text, and the same text reaches
  \<^verbatim>\<open>sqlite3_prepare_v2\<close>. The extracted values only reach the bind calls.
\<close>

theorem sql_text_depends_on_keys_only:
  assumes "std_map m1" and "std_map m2" and "set (map fst m1) = set (map fst m2)"
  shows "insert_sql tableName m1 = insert_sql tableName m2 \<and>
         update_sql tableName m1 = update_sql tableName m2 \<and>
         map_option (\<lambda>out. prepared_texts (trace out)) (Database_insert api db tableName data1 m1) =
         map_option (\<lambda>out. prepared_texts (trace out)) (Database_insert api db tableName data2 m2) \<and>
         map_option (\<lambda>out. prepared_texts (trace out)) (Database_update api db tableName id1 data1 m1) =
         map_option (\<lambda>out. prepared_texts (trace out)) (Database_update api db tableName id2 data2 m2)"
proof -
  have keys: "map fst m1 = map fst m2"
    using assms by (rule std_map_keys_unique)
  have i: "insert_sql tableName m1 = insert_sql tableName m2"
    using keys by (rule insert_sql_keys)
  have u: "update_sql tableName m1 = update_sql tableName m2"
    using keys by (rule update_sql_keys)
  show ?thesis
    unfolding insert_prepares update_prepares i u by simp
qed

theorem sql_text_depends_on_keys_only_witness:
  "insert_sql ''category''
     [(''description'', \<lambda>r. VString (snd r)), (''name'', \<lambda>r::string \<times> string. VString (fst r))] =
   insert_sql ''category''
     [(''description'', \<lambda>r::32 word. VInt r), (''name'', \<lambda>r. VDouble (Double 0))] \<and>
   update_sql ''category''
     [(''description'', \<lambda>r. VString (snd r)), (''name'', \<lambda>r::string \<times> string. VString (fst r))] =
   update_sql ''category''
     [(''description'', \<lambda>r::32 word. VInt r), (''name'', \<lambda>r. VDouble (Double 0))] \<and>
   map_option (\<lambda>out. prepared_texts (trace out))
     (Database_update rows_store ([(1, False)], 0) ''category'' 1 (''Tools'', ''Hand tools'')
        [(''description'', \<lambda>r. VString (snd r)), (''name'', \<lambda>r::string \<times> string. VString (fst r))]) =
   map_option (\<lambda>out. prepared_texts (trace out))
     (Database_update rows_store ([(1, False)], 0) ''category'' 9 (7 :: 32 word)
        [(''description'', \<lambda>r::32 word. VInt r), (''name'', \<lambda>r. VDouble (Double 0))])"
proof -
  have a: "std_map [(''description'', \<lambda>r. VString (snd r)), (''name'', \<lambda>r::string \<times> string. VString (fst r))]"
    by (simp add: std_map_def less_char_def)
  have b: "std_map [(''description'', \<lambda>r::32 word. VInt r), (''name'', \<lambda>r. VDouble (Double 0))]"
    by (simp add: std_map_def less_char_def)
  have c: "set (map fst [(''description'', \<lambda>r. VString (snd r)), (''name'', \<lambda>r::string \<times> string. VString (fst r))]) =
           set (map fst [(''description'', \<lambda>r::32 word. VInt r), (''name'', \<lambda>r. VDouble (Double 0))])"
    by simp
  from sql_text_depends_on_keys_only [OF a b c, of "''category''" rows_store "([(1, False)], 0)"
      "(''Tools'', ''Hand tools'')" 7 1 9]
  show ?thesis by simp
qed

section \<open>What the binding loops bind\<close>





lemma c_str_no_nul: "CHR 0x00 \<notin> set s \<Longrightarrow> c_str s = s"
  by (auto simp: c_str_def)









section \<open>update on an id that is not there\<close>

lemma c_str_append_no_nul: "CHR 0x00 \<notin> set a \<Longrightarrow> c_str (a @ b) = a @ c_str b"
  by (auto simp: c_str_def takeWhile_append)

lemma c_str_update_prefix:
  assumes "update_sql t m = Some sql"
  shows "take 7 (c_str sql) = ''UPDATE ''"
proof -
  obtain rest where "sql = ''UPDATE '' @ rest"
  proof (cases "m = []")
    case True
    have "Some sql = Some (''UPDATE '' @ t @ '' SE WHERE id = ?;'')"
      using assms unfolding True update_sql_empty by (rule sym)
    then have "sql = ''UPDATE '' @ (t @ '' SE WHERE id = ?;'')"
      by simp
    then show ?thesis by (rule that)
  next
    case False
    have "Some sql = Some (''UPDATE '' @ t @ '' SET '' @
           join '', '' (map (\<lambda>c. c @ ''?'') (map fst m)) @ '' WHERE id = ?;'')"
      using assms unfolding update_sql_nonempty [OF False] by (rule sym)
    then have "sql = ''UPDATE '' @ (t @ '' SET '' @ join '', '' (map (\<lambda>c. c @ ''?'') (map fst m)) @
           '' WHERE id = ?;'')"
      by simp
    then show ?thesis by (rule that)
  qed
  then have "c_str sql = ''UPDATE '' @ c_str rest"
    using c_str_append_no_nul [of "''UPDATE ''" rest] by simp
  then show ?thesis by simp
qed

text \<open>
  C4. When the statement of \<^verbatim>\<open>update\<close> is prepared and executed successfully, the call
  returns true whatever the number of changed rows is; when that number is zero it writes
  the warning and nothing else, and the connection is left as the one execution left it.
  On a store whose change count is honest, zero changed rows means the stored rows are
  the ones from before the call. The result alone does not tell the two cases apart.
\<close>

theorem update_zero_rows_reports_success:
  assumes store: "zero_changes_store api rows"
    and built: "update_sql tableName fieldMapping = Some sql"
    and prep: "fst (sqlite3_prepare_v2 api db (c_str sql)) = SQLITE_OK"
    and step: "sqlite3_step api db (c_str sql) (update_binds id' data fieldMapping) =
                 (SQLITE_DONE, errmsg, db1)"
  shows "\<exists>out. Database_update api db tableName id' data fieldMapping = Some out \<and>
           returned out \<and>
           conn out = db1 \<and>
           cerr out = (if sqlite3_changes api db1 = 0
                       then [''No rows were updated. Check if the ID exists.''] else []) \<and>
           (sqlite3_changes api db1 = 0 \<longrightarrow> rows (conn out) = rows db)"
proof -
  obtain rc msg where p: "sqlite3_prepare_v2 api db (c_str sql) = (rc, msg)"
    by (cases "sqlite3_prepare_v2 api db (c_str sql)")
  with prep have rc: "rc = SQLITE_OK" by simp
  have "take 7 (c_str sql) = ''UPDATE '' \<longrightarrow>
        (case sqlite3_step api db (c_str sql) (update_binds id' data fieldMapping) of
           (rc, errmsg, db1) \<Rightarrow>
             rc = SQLITE_DONE \<and> sqlite3_changes api db1 = 0 \<longrightarrow> rows db1 = rows db)"
    using store [unfolded zero_changes_store_def, THEN spec [where x = db],
        THEN spec [where x = "c_str sql"],
        THEN spec [where x = "update_binds id' data fieldMapping"]] .
  then have unchanged: "sqlite3_changes api db1 = 0 \<longrightarrow> rows db1 = rows db"
    using c_str_update_prefix [OF built] by (simp add: step)
  show ?thesis
    using unchanged
    by (simp add: Database_update_def built p rc step Let_def)
qed

theorem update_zero_rows_reports_success_witness:
  "map_option returned
     (Database_update rows_store ([(1, False)], 0) ''category'' 9 (''Tools'', ''Hand tools'')
        [(''description'', \<lambda>r. VString (snd r)), (''name'', \<lambda>r::string \<times> string. VString (fst r))]) =
     Some True \<and>
   map_option cerr
     (Database_update rows_store ([(1, False)], 0) ''category'' 9 (''Tools'', ''Hand tools'')
        [(''description'', \<lambda>r. VString (snd r)), (''name'', \<lambda>r::string \<times> string. VString (fst r))]) =
     Some [''No rows were updated. Check if the ID exists.''] \<and>
   map_option (\<lambda>out. fst (conn out))
     (Database_update rows_store ([(1, False)], 0) ''category'' 9 (''Tools'', ''Hand tools'')
        [(''description'', \<lambda>r. VString (snd r)), (''name'', \<lambda>r::string \<times> string. VString (fst r))]) =
     Some [(1, False)] \<and>
   map_option returned
     (Database_update rows_store ([(1, False)], 0) ''category'' 1 (''Tools'', ''Hand tools'')
        [(''description'', \<lambda>r. VString (snd r)), (''name'', \<lambda>r::string \<times> string. VString (fst r))]) =
     Some True"
proof -
  let ?m = "[(''description'', \<lambda>r. VString (snd r)), (''name'', \<lambda>r::string \<times> string. VString (fst r))]"
  let ?sql = "''UPDATE category SET description?, name? WHERE id = ?;''"
  have store: "zero_changes_store rows_store fst"
    by (simp add: zero_changes_store_def rows_store_def rows_step_def split: option.splits)
  have built: "update_sql ''category'' ?m = Some ?sql"
    using update_sql_nonempty [of ?m "''category''"] by simp
  have c: "c_str ?sql = ?sql"
    by (simp add: c_str_def)
  have prep: "fst (sqlite3_prepare_v2 rows_store ([(1, False)], 0) (c_str ?sql)) = SQLITE_OK"
    unfolding c by (simp add: rows_store_def SQLITE_OK_def)
  have binds: "update_binds i (''Tools'', ''Hand tools'') ?m =
     [sqlite3_bind_text 1 ''Hand tools'' SQLITE_STATIC, sqlite3_bind_text 2 ''Tools'' SQLITE_STATIC,
      sqlite3_bind_int 3 i]" for i
    by (simp add: update_binds_def c_str_def)
  have step9: "sqlite3_step rows_store ([(1, False)], 0) (c_str ?sql)
        (update_binds 9 (''Tools'', ''Hand tools'') ?m) = (SQLITE_DONE, [], ([(1, False)], 0))"
    unfolding c binds by (simp add: rows_store_def rows_step_def SQLITE_DONE_def)
  have step1: "sqlite3_step rows_store ([(1, False)], 0) (c_str ?sql)
        (update_binds 1 (''Tools'', ''Hand tools'') ?m) = (SQLITE_DONE, [], ([(1, False)], 1))"
    unfolding c binds by (simp add: rows_store_def rows_step_def SQLITE_DONE_def)
  from update_zero_rows_reports_success [OF store built prep step9]
    update_zero_rows_reports_success [OF store built prep step1]
  show ?thesis
    by (auto simp: rows_store_def)
qed

section \<open>remove\<close>

text \<open>
  C3. \<^verbatim>\<open>remove\<close>, as the specification describes it: the statement prepared is
  \<^verbatim>\<open>DELETE FROM table WHERE id = ?\<close>, the id is bound at index 1, the statement is
  executed, and the call returns true exactly when the store accepts it at preparation
  and completes it at execution; a constraint violation on a referenced row is one way of
  not completing. The number of deleted rows is never asked for, so "no such id" and
  "deleted" give the same result.
\<close>

theorem remove_fails_iff_store_rejects:
  "prepared_texts (trace (Database_remove api db tableName id')) =
     [c_str (''DELETE FROM '' @ tableName @ '' WHERE id = ?'')] \<and>
   (CHR 0x00 \<notin> set tableName \<longrightarrow>
      c_str (''DELETE FROM '' @ tableName @ '' WHERE id = ?'') =
        ''DELETE FROM '' @ tableName @ '' WHERE id = ?'') \<and>
   returned (Database_remove api db tableName id') =
     (fst (sqlite3_prepare_v2 api db (c_str (''DELETE FROM '' @ tableName @ '' WHERE id = ?''))) =
        SQLITE_OK \<and>
      fst (sqlite3_step api db (c_str (''DELETE FROM '' @ tableName @ '' WHERE id = ?''))
             [sqlite3_bind_int 1 id']) = SQLITE_DONE) \<and>
   (fst (sqlite3_prepare_v2 api db (c_str (''DELETE FROM '' @ tableName @ '' WHERE id = ?''))) =
      SQLITE_OK \<longrightarrow>
    bind_calls (trace (Database_remove api db tableName id')) = [sqlite3_bind_int 1 id'] \<and>
    Step \<in> set (trace (Database_remove api db tableName id')) \<and>
    conn (Database_remove api db tableName id') =
      snd (snd (sqlite3_step api db (c_str (''DELETE FROM '' @ tableName @ '' WHERE id = ?''))
             [sqlite3_bind_int 1 id']))) \<and>
   Changes \<notin> set (trace (Database_remove api db tableName id'))"
proof -
  let ?sql = "c_str (''DELETE FROM '' @ tableName @ '' WHERE id = ?'')"
  obtain rc msg where p: "sqlite3_prepare_v2 api db ?sql = (rc, msg)"
    by (cases "sqlite3_prepare_v2 api db ?sql")
  obtain rc1 msg1 db1 where s: "sqlite3_step api db ?sql [sqlite3_bind_int 1 id'] = (rc1, msg1, db1)"
    by (cases "sqlite3_step api db ?sql [sqlite3_bind_int 1 id']")
  have nul: "CHR 0x00 \<notin> set tableName \<longrightarrow>
      c_str (''DELETE FROM '' @ tableName @ '' WHERE id = ?'') =
        ''DELETE FROM '' @ tableName @ '' WHERE id = ?''"
  proof (rule impI)
    assume "CHR 0x00 \<notin> set tableName"
    then have "CHR 0x00 \<notin> set (''DELETE FROM '' @ tableName @ '' WHERE id = ?'')"
      by simp
    then show "c_str (''DELETE FROM '' @ tableName @ '' WHERE id = ?'') =
        ''DELETE FROM '' @ tableName @ '' WHERE id = ?''"
      by (rule c_str_no_nul)
  qed
  show ?thesis
    using nul p s by (simp add: Database_remove_def Let_def)
qed

theorem remove_fails_iff_store_rejects_witness:
  "returned (Database_remove rows_store ([(1, False), (5, True)], 0) ''suppliers'' 5) = False \<and>
   conn (Database_remove rows_store ([(1, False), (5, True)], 0) ''suppliers'' 5) =
     ([(1, False), (5, True)], 0) \<and>
   returned (Database_remove rows_store ([(1, False), (5, True)], 0) ''suppliers'' 1) = True \<and>
   conn (Database_remove rows_store ([(1, False), (5, True)], 0) ''suppliers'' 1) =
     ([(5, True)], 1) \<and>
   returned (Database_remove rows_store ([(1, False), (5, True)], 0) ''suppliers'' 9) = True \<and>
   conn (Database_remove rows_store ([(1, False), (5, True)], 0) ''suppliers'' 9) =
     ([(1, False), (5, True)], 0)"
  using remove_fails_iff_store_rejects [of rows_store "([(1, False), (5, True)], 0)" "''suppliers''" 5]
    remove_fails_iff_store_rejects [of rows_store "([(1, False), (5, True)], 0)" "''suppliers''" 1]
    remove_fails_iff_store_rejects [of rows_store "([(1, False), (5, True)], 0)" "''suppliers''" 9]
  by (simp add: rows_store_def rows_step_def c_str_def SQLITE_OK_def SQLITE_DONE_def)

section \<open>init\<close>

lemma table_names:
  "create_table_name categoryTableQuery = Some ''category''"
  "create_table_name supplierTableQuery = Some ''suppliers''"
  "create_table_name itemTableQuery = Some ''item''"
  "create_table_name userTableQuery = Some ''user''"
  "create_table_name transactionTableQuery = Some ''transaction_records''"
  "create_table_name foreignKeySupport = None"
  by (simp_all add: create_table_name_def categoryTableQuery_def supplierTableQuery_def
      itemTableQuery_def userTableQuery_def transactionTableQuery_def foreignKeySupport_def)

lemma exec_logged_trace: "trace (exec_logged api label sql s) = trace s @ [Exec sql]"
  by (simp add: exec_logged_def split: prod.splits option.splits)

lemma exec_logged_conn:
  "conn (exec_logged api label sql s) = snd (snd (sqlite3_exec api (conn s) sql))"
  by (simp add: exec_logged_def split: prod.splits option.splits)

lemma exec_logged_cerr:
  "cerr (exec_logged api label sql s) =
     (if cerr_bad s then cerr s
      else cerr s @ logged [(label, fst (sqlite3_exec api (conn s) sql),
                             fst (snd (sqlite3_exec api (conn s) sql)))])"
  by (simp add: exec_logged_def split: prod.splits option.splits)

lemma exec_logged_bad:
  "cerr_bad (exec_logged api label sql s) =
     (cerr_bad s \<or>
      fst (sqlite3_exec api (conn s) sql) \<noteq> SQLITE_OK \<and>
      fst (snd (sqlite3_exec api (conn s) sql)) = None)"
  by (auto simp: exec_logged_def split: prod.splits option.splits)

lemma exec_results_step:
  "exec_results api db (sql # sqls) =
     (fst (sqlite3_exec api db sql), fst (snd (sqlite3_exec api db sql))) #
     exec_results api (snd (snd (sqlite3_exec api db sql))) sqls"
  by (simp split: prod.splits)

lemma blocks_trace:
  "trace (foldl (\<lambda>s q. exec_logged api (fst q) (snd q) s) s qs) = trace s @ map Exec (map snd qs)"
  by (induction qs arbitrary: s) (simp_all add: exec_logged_trace)

lemma blocks_cerr:
  "cerr (foldl (\<lambda>s q. exec_logged api (fst q) (snd q) s) s qs) =
     (if cerr_bad s then cerr s
      else cerr s @ logged (zip (map fst qs) (exec_results api (conn s) (map snd qs))))"
proof (induction qs arbitrary: s)
  case Nil
  show ?case by simp
next
  case (Cons q qs)
  let ?s1 = "exec_logged api (fst q) (snd q) s"
  let ?rc = "fst (sqlite3_exec api (conn s) (snd q))"
  let ?msg = "fst (snd (sqlite3_exec api (conn s) (snd q)))"
  let ?rest = "zip (map fst qs) (exec_results api (conn ?s1) (map snd qs))"
  have run: "cerr (foldl (\<lambda>s q. exec_logged api (fst q) (snd q) s) s (q # qs)) =
      (if cerr_bad ?s1 then cerr ?s1 else cerr ?s1 @ logged ?rest)"
    using Cons.IH [of ?s1] by simp
  have results: "zip (map fst (q # qs)) (exec_results api (conn s) (map snd (q # qs))) =
      (fst q, ?rc, ?msg) # ?rest"
    by (simp add: exec_results_step exec_logged_conn del: exec_results.simps)
  show ?case
  proof (cases "cerr_bad s")
    case True
    then show ?thesis
      unfolding run by (simp add: exec_logged_bad exec_logged_cerr)
  next
    case False
    show ?thesis
    proof (cases "?rc = SQLITE_OK")
      case True
      with False show ?thesis
        unfolding run results by (simp add: exec_logged_bad exec_logged_cerr)
    next
      case rejected: False
      show ?thesis
      proof (cases ?msg)
        case None
        with False rejected show ?thesis
          unfolding run results by (simp add: exec_logged_bad exec_logged_cerr)
      next
        case (Some msg)
        with False rejected show ?thesis
          unfolding run results by (simp add: exec_logged_bad exec_logged_cerr)
      qed
    qed
  qed
qed

lemma init_blocks:
  "Database_init api db =
     foldl (\<lambda>s q. exec_logged api (fst q) (snd q) s)
       \<lparr>cerr = [], trace = [], conn = db, cerr_bad = False\<rparr>
       [(''Error enabling foreign keys: '', foreignKeySupport),
        (''Error Creating Category Table: '', categoryTableQuery),
        (''Error Creating Supplier Table: '', supplierTableQuery),
        (''Error Creating Items Table: '', itemTableQuery),
        (''Error Creating User Table: '', userTableQuery),
        (''Error Creating Transaction Table: '', transactionTableQuery)]"
  by (simp add: Database_init_def Let_def)

text \<open>
  C7. The claim: \<^verbatim>\<open>init\<close> enables foreign keys, then attempts the five creation
  statements in the order category, supplier, item, user, transaction_record; a failure
  of any statement is logged and does not keep the remaining ones from being attempted.
  Whatever the store answers, the six statements are executed in this order and none is
  skipped. The log is another matter, because every block streams \<^verbatim>\<open>errMsg\<close> unchecked:
  a rejected statement that comes with a message gets its line, but the first rejected
  statement that comes without one (on a handle whose open failed, all of them) leaves
  only its label, and no later failure is logged at all.
\<close>

theorem init_attempts_every_statement:
  "trace (Database_init api db) =
     [Exec foreignKeySupport, Exec categoryTableQuery, Exec supplierTableQuery,
      Exec itemTableQuery, Exec userTableQuery, Exec transactionTableQuery] \<and>
   cerr (Database_init api db) =
     logged
       (zip [''Error enabling foreign keys: '', ''Error Creating Category Table: '',
             ''Error Creating Supplier Table: '', ''Error Creating Items Table: '',
             ''Error Creating User Table: '', ''Error Creating Transaction Table: '']
            (exec_results api db
               [foreignKeySupport, categoryTableQuery, supplierTableQuery,
                itemTableQuery, userTableQuery, transactionTableQuery])) \<and>
   map create_table_name
     [foreignKeySupport, categoryTableQuery, supplierTableQuery,
      itemTableQuery, userTableQuery, transactionTableQuery] =
     [None, Some ''category'', Some ''suppliers'', Some ''item'', Some ''user'',
      Some ''transaction_records'']"
proof -
  have t: "trace (Database_init api db) =
     [Exec foreignKeySupport, Exec categoryTableQuery, Exec supplierTableQuery,
      Exec itemTableQuery, Exec userTableQuery, Exec transactionTableQuery]"
    unfolding init_blocks blocks_trace by simp
  have c: "cerr (Database_init api db) =
     logged
       (zip [''Error enabling foreign keys: '', ''Error Creating Category Table: '',
             ''Error Creating Supplier Table: '', ''Error Creating Items Table: '',
             ''Error Creating User Table: '', ''Error Creating Transaction Table: '']
            (exec_results api db
               [foreignKeySupport, categoryTableQuery, supplierTableQuery,
                itemTableQuery, userTableQuery, transactionTableQuery]))"
    unfolding init_blocks blocks_cerr by (simp del: exec_results.simps logged.simps)
  from t c show ?thesis
    by (simp add: table_names)
qed

theorem init_attempts_every_statement_witness:
  "length (trace (Database_init unopened_store ())) = 6 \<and>
   map fst (exec_results unopened_store ()
      [foreignKeySupport, categoryTableQuery, supplierTableQuery,
       itemTableQuery, userTableQuery, transactionTableQuery]) = [21, 21, 21, 21, 21, 21] \<and>
   cerr (Database_init unopened_store ()) = [''Error enabling foreign keys: ''] \<and>
   length (trace (Database_init rows_store ([], 0))) = 6 \<and>
   cerr (Database_init rows_store ([], 0)) =
     [''Error enabling foreign keys: not supported'',
      ''Error Creating Category Table: not supported'',
      ''Error Creating Supplier Table: not supported'',
      ''Error Creating Items Table: not supported'',
      ''Error Creating User Table: not supported'',
      ''Error Creating Transaction Table: not supported'']"
  using init_attempts_every_statement [of unopened_store "()"]
    init_attempts_every_statement [of rows_store "([], 0)"]
  by (simp add: unopened_store_def rows_store_def SQLITE_OK_def)

lemma exec_logged_clean:
  assumes "cerr (exec_logged api label sql s) = []"
  shows "cerr s = []"
  using assms by (auto simp: exec_logged_cerr split: if_splits)

lemma exec_logged_accepted:
  assumes "cerr (exec_logged api label sql s) = []" and "\<not> cerr_bad s"
  shows "fst (sqlite3_exec api (conn s) sql) = SQLITE_OK"
    and "\<not> cerr_bad (exec_logged api label sql s)"
  using assms by (auto simp: exec_logged_cerr exec_logged_bad split: if_splits option.splits)

lemma create_first_run:
  assumes store: "create_if_absent_store api schema fk"
    and name: "create_table_name sql = Some n"
    and ok: "fst (sqlite3_exec api (conn s) sql) = SQLITE_OK"
  shows "n \<in> fst ` set (schema (conn (exec_logged api label sql s)))"
    and "fst ` set (schema (conn s)) \<subseteq> fst ` set (schema (conn (exec_logged api label sql s)))"
    and "fk (conn s) \<Longrightarrow> fk (conn (exec_logged api label sql s))"
proof -
  obtain rc msg db1 where e: "sqlite3_exec api (conn s) sql = (rc, msg, db1)"
    by (cases "sqlite3_exec api (conn s) sql")
  from store [unfolded create_if_absent_store_def, THEN conjunct1,
      THEN spec [where x = "conn s"], THEN spec [where x = sql], THEN spec [where x = n]] name
  have
    "case sqlite3_exec api (conn s) sql of
       (rc, errMsg, db1) \<Rightarrow>
         (n \<in> fst ` set (schema (conn s)) \<longrightarrow>
            rc = SQLITE_OK \<and> schema db1 = schema (conn s) \<and> fk db1 = fk (conn s)) \<and>
         (rc = SQLITE_OK \<longrightarrow>
            n \<in> fst ` set (schema db1) \<and>
            fst ` set (schema (conn s)) \<subseteq> fst ` set (schema db1) \<and>
            (fk (conn s) \<longrightarrow> fk db1))"
    by (rule mp)
  with e ok have f: "n \<in> fst ` set (schema db1) \<and>
            fst ` set (schema (conn s)) \<subseteq> fst ` set (schema db1) \<and>
            (fk (conn s) \<longrightarrow> fk db1)"
    by simp
  have c: "conn (exec_logged api label sql s) = db1"
    by (simp add: exec_logged_conn e)
  from f show "n \<in> fst ` set (schema (conn (exec_logged api label sql s)))"
    unfolding c by simp
  from f show "fst ` set (schema (conn s)) \<subseteq> fst ` set (schema (conn (exec_logged api label sql s)))"
    unfolding c by simp
  from f show "fk (conn s) \<Longrightarrow> fk (conn (exec_logged api label sql s))"
    unfolding c by simp
qed

lemma pragma_first_run:
  assumes store: "create_if_absent_store api schema fk"
    and ok: "fst (sqlite3_exec api (conn s) foreignKeySupport) = SQLITE_OK"
  shows "fk (conn (exec_logged api label foreignKeySupport s))"
proof -
  obtain rc msg db1 where e: "sqlite3_exec api (conn s) foreignKeySupport = (rc, msg, db1)"
    by (cases "sqlite3_exec api (conn s) foreignKeySupport")
  from store have
    "case sqlite3_exec api (conn s) foreignKeySupport of
       (rc, errMsg, db1) \<Rightarrow>
         (fk (conn s) \<longrightarrow> rc = SQLITE_OK \<and> schema db1 = schema (conn s) \<and> fk db1) \<and>
         (rc = SQLITE_OK \<longrightarrow> fk db1 \<and> fst ` set (schema (conn s)) \<subseteq> fst ` set (schema db1))"
    unfolding create_if_absent_store_def by (elim conjE allE [where x = "conn s"])
  with e ok have "fk db1" by simp
  then show ?thesis by (simp add: exec_logged_conn e)
qed

lemma create_again:
  assumes store: "create_if_absent_store api schema fk"
    and name: "create_table_name sql = Some n"
    and there: "n \<in> fst ` set (schema (conn s))"
  shows "cerr (exec_logged api label sql s) = cerr s"
    and "schema (conn (exec_logged api label sql s)) = schema (conn s)"
    and "fk (conn (exec_logged api label sql s)) = fk (conn s)"
proof -
  obtain rc msg db1 where e: "sqlite3_exec api (conn s) sql = (rc, msg, db1)"
    by (cases "sqlite3_exec api (conn s) sql")
  from store [unfolded create_if_absent_store_def, THEN conjunct1,
      THEN spec [where x = "conn s"], THEN spec [where x = sql], THEN spec [where x = n]] name
  have
    "case sqlite3_exec api (conn s) sql of
       (rc, errMsg, db1) \<Rightarrow>
         (n \<in> fst ` set (schema (conn s)) \<longrightarrow>
            rc = SQLITE_OK \<and> schema db1 = schema (conn s) \<and> fk db1 = fk (conn s)) \<and>
         (rc = SQLITE_OK \<longrightarrow>
            n \<in> fst ` set (schema db1) \<and>
            fst ` set (schema (conn s)) \<subseteq> fst ` set (schema db1) \<and>
            (fk (conn s) \<longrightarrow> fk db1))"
    by (rule mp)
  with e there have f: "rc = SQLITE_OK \<and> schema db1 = schema (conn s) \<and> fk db1 = fk (conn s)"
    by simp
  from f show "cerr (exec_logged api label sql s) = cerr s"
    by (simp add: exec_logged_cerr e)
  from f show "schema (conn (exec_logged api label sql s)) = schema (conn s)"
    by (simp add: exec_logged_conn e)
  from f show "fk (conn (exec_logged api label sql s)) = fk (conn s)"
    by (simp add: exec_logged_conn e)
qed

lemma pragma_again:
  assumes store: "create_if_absent_store api schema fk"
    and on: "fk (conn s)"
  shows "cerr (exec_logged api label foreignKeySupport s) = cerr s"
    and "schema (conn (exec_logged api label foreignKeySupport s)) = schema (conn s)"
    and "fk (conn (exec_logged api label foreignKeySupport s))"
proof -
  obtain rc msg db1 where e: "sqlite3_exec api (conn s) foreignKeySupport = (rc, msg, db1)"
    by (cases "sqlite3_exec api (conn s) foreignKeySupport")
  from store have
    "case sqlite3_exec api (conn s) foreignKeySupport of
       (rc, errMsg, db1) \<Rightarrow>
         (fk (conn s) \<longrightarrow> rc = SQLITE_OK \<and> schema db1 = schema (conn s) \<and> fk db1) \<and>
         (rc = SQLITE_OK \<longrightarrow> fk db1 \<and> fst ` set (schema (conn s)) \<subseteq> fst ` set (schema db1))"
    unfolding create_if_absent_store_def by (elim conjE allE [where x = "conn s"])
  with e on have f: "rc = SQLITE_OK \<and> schema db1 = schema (conn s) \<and> fk db1"
    by simp
  from f show "cerr (exec_logged api label foreignKeySupport s) = cerr s"
    by (simp add: exec_logged_cerr e)
  from f show "schema (conn (exec_logged api label foreignKeySupport s)) = schema (conn s)"
    by (simp add: exec_logged_conn e)
  from f show "fk (conn (exec_logged api label foreignKeySupport s))"
    by (simp add: exec_logged_conn e)
qed

lemma init_first_run:
  assumes store: "create_if_absent_store api schema fk"
    and clean: "cerr (Database_init api db) = []"
  shows "fk (conn (Database_init api db))"
    and "{''category'', ''suppliers'', ''item'', ''user'', ''transaction_records''}
           \<subseteq> fst ` set (schema (conn (Database_init api db)))"
proof -
  define s0 :: "'a init_session"
    where "s0 = \<lparr>cerr = [], trace = [], conn = db, cerr_bad = False\<rparr>"
  define s1 where "s1 = exec_logged api ''Error enabling foreign keys: '' foreignKeySupport s0"
  define s2 where "s2 = exec_logged api ''Error Creating Category Table: '' categoryTableQuery s1"
  define s3 where "s3 = exec_logged api ''Error Creating Supplier Table: '' supplierTableQuery s2"
  define s4 where "s4 = exec_logged api ''Error Creating Items Table: '' itemTableQuery s3"
  define s5 where "s5 = exec_logged api ''Error Creating User Table: '' userTableQuery s4"
  define s6 where "s6 = exec_logged api ''Error Creating Transaction Table: '' transactionTableQuery s5"
  have run: "Database_init api db = s6"
    by (simp add: Database_init_def Let_def s0_def s1_def s2_def s3_def s4_def s5_def s6_def)
  from clean have c6: "cerr s6 = []" by (simp add: run)
  note c5 = exec_logged_clean [OF c6 [unfolded s6_def]]
  note c4 = exec_logged_clean [OF c5 [unfolded s5_def]]
  note c3 = exec_logged_clean [OF c4 [unfolded s4_def]]
  note c2 = exec_logged_clean [OF c3 [unfolded s3_def]]
  note c1 = exec_logged_clean [OF c2 [unfolded s2_def]]
  have g0: "\<not> cerr_bad s0" by (simp add: s0_def)
  note r1 = exec_logged_accepted [OF c1 [unfolded s1_def] g0, folded s1_def]
  note r2 = exec_logged_accepted [OF c2 [unfolded s2_def] r1(2), folded s2_def]
  note r3 = exec_logged_accepted [OF c3 [unfolded s3_def] r2(2), folded s3_def]
  note r4 = exec_logged_accepted [OF c4 [unfolded s4_def] r3(2), folded s4_def]
  note r5 = exec_logged_accepted [OF c5 [unfolded s5_def] r4(2), folded s5_def]
  note r6 = exec_logged_accepted [OF c6 [unfolded s6_def] r5(2), folded s6_def]
  have f1: "fk (conn s1)"
    unfolding s1_def using store r1(1) by (rule pragma_first_run)
  note a2 = create_first_run [OF store table_names(1) r2(1), of "''Error Creating Category Table: ''",
      folded s2_def]
  note a3 = create_first_run [OF store table_names(2) r3(1), of "''Error Creating Supplier Table: ''",
      folded s3_def]
  note a4 = create_first_run [OF store table_names(3) r4(1), of "''Error Creating Items Table: ''",
      folded s4_def]
  note a5 = create_first_run [OF store table_names(4) r5(1), of "''Error Creating User Table: ''",
      folded s5_def]
  note a6 = create_first_run [OF store table_names(5) r6(1), of "''Error Creating Transaction Table: ''",
      folded s6_def]
  from f1 a2(3) a3(3) a4(3) a5(3) a6(3) have "fk (conn s6)" by blast
  then show "fk (conn (Database_init api db))" by (simp add: run)
  from a2(1) a3(1,2) a4(1,2) a5(1,2) a6(1,2)
  have "{''category'', ''suppliers'', ''item'', ''user'', ''transaction_records''}
           \<subseteq> fst ` set (schema (conn s6))"
    by blast
  then show "{''category'', ''suppliers'', ''item'', ''user'', ''transaction_records''}
           \<subseteq> fst ` set (schema (conn (Database_init api db)))"
    by (simp add: run)
qed

lemma init_second_run:
  assumes store: "create_if_absent_store api schema fk"
    and on: "fk db"
    and tables: "{''category'', ''suppliers'', ''item'', ''user'', ''transaction_records''}
           \<subseteq> fst ` set (schema db)"
  shows "cerr (Database_init api db) = []"
    and "schema (conn (Database_init api db)) = schema db"
    and "fk (conn (Database_init api db))"
proof -
  define s0 :: "'a init_session"
    where "s0 = \<lparr>cerr = [], trace = [], conn = db, cerr_bad = False\<rparr>"
  define s1 where "s1 = exec_logged api ''Error enabling foreign keys: '' foreignKeySupport s0"
  define s2 where "s2 = exec_logged api ''Error Creating Category Table: '' categoryTableQuery s1"
  define s3 where "s3 = exec_logged api ''Error Creating Supplier Table: '' supplierTableQuery s2"
  define s4 where "s4 = exec_logged api ''Error Creating Items Table: '' itemTableQuery s3"
  define s5 where "s5 = exec_logged api ''Error Creating User Table: '' userTableQuery s4"
  define s6 where "s6 = exec_logged api ''Error Creating Transaction Table: '' transactionTableQuery s5"
  have run: "Database_init api db = s6"
    by (simp add: Database_init_def Let_def s0_def s1_def s2_def s3_def s4_def s5_def s6_def)
  have on0: "fk (conn s0)" and sch0: "schema (conn s0) = schema db" and c0: "cerr s0 = []"
    using on by (simp_all add: s0_def)
  note b1 = pragma_again [OF store on0, of "''Error enabling foreign keys: ''", folded s1_def]
  have t1: "''category'' \<in> fst ` set (schema (conn s1))"
    using tables by (simp add: b1(2) sch0)
  note b2 = create_again [OF store table_names(1) t1, of "''Error Creating Category Table: ''",
      folded s2_def]
  have t2: "''suppliers'' \<in> fst ` set (schema (conn s2))"
    using tables by (simp add: b2(2) b1(2) sch0)
  note b3 = create_again [OF store table_names(2) t2, of "''Error Creating Supplier Table: ''",
      folded s3_def]
  have t3: "''item'' \<in> fst ` set (schema (conn s3))"
    using tables by (simp add: b3(2) b2(2) b1(2) sch0)
  note b4 = create_again [OF store table_names(3) t3, of "''Error Creating Items Table: ''",
      folded s4_def]
  have t4: "''user'' \<in> fst ` set (schema (conn s4))"
    using tables by (simp add: b4(2) b3(2) b2(2) b1(2) sch0)
  note b5 = create_again [OF store table_names(4) t4, of "''Error Creating User Table: ''",
      folded s5_def]
  have t5: "''transaction_records'' \<in> fst ` set (schema (conn s5))"
    using tables by (simp add: b5(2) b4(2) b3(2) b2(2) b1(2) sch0)
  note b6 = create_again [OF store table_names(5) t5, of "''Error Creating Transaction Table: ''",
      folded s6_def]
  show "cerr (Database_init api db) = []"
    by (simp add: run b6(1) b5(1) b4(1) b3(1) b2(1) b1(1) c0)
  show "schema (conn (Database_init api db)) = schema db"
    by (simp add: run b6(2) b5(2) b4(2) b3(2) b2(2) b1(2) sch0)
  show "fk (conn (Database_init api db))"
    using b1(3) by (simp add: run b6(3) b5(3) b4(3) b3(3) b2(3))
qed

text \<open>
  C8. \<^verbatim>\<open>init\<close> is idempotent on a store that honours "create if absent": after a run
  that logged no error, a second run logs no error, executes the same statements, leaves
  the schema as the first run left it and foreign keys enforced. Every creation statement
  of \<^verbatim>\<open>init\<close> has the \<^verbatim>\<open>CREATE TABLE IF NOT EXISTS\<close> form, which is what the proof uses.
\<close>

theorem init_idempotent:
  assumes "create_if_absent_store api schema fk"
    and "cerr (Database_init api db) = []"
  shows "cerr (Database_init api (conn (Database_init api db))) = [] \<and>
         schema (conn (Database_init api (conn (Database_init api db)))) =
           schema (conn (Database_init api db)) \<and>
         fk (conn (Database_init api (conn (Database_init api db)))) \<and>
         trace (Database_init api (conn (Database_init api db))) = trace (Database_init api db)"
  using init_second_run [OF assms(1) init_first_run [OF assms]]
  by (simp add: Database_init_def Let_def exec_logged_trace)

lemma schema_store_contract: "create_if_absent_store schema_store fst snd"
proof -
  have a: "sql \<noteq> foreignKeySupport" if "create_table_name sql = Some n" for sql n
    using that table_names(6) by auto
  show ?thesis
    unfolding create_if_absent_store_def
    by (auto simp: schema_store_def schema_exec_def SQLITE_OK_def a)
qed

lemma schema_exec_queries:
  "schema_exec db foreignKeySupport = (0, None, (fst db, True))"
  "schema_exec db categoryTableQuery =
     (0, None, if ''category'' \<in> fst ` set (fst db) then db
             else (fst db @ [(''category'', categoryTableQuery)], snd db))"
  "schema_exec db supplierTableQuery =
     (0, None, if ''suppliers'' \<in> fst ` set (fst db) then db
             else (fst db @ [(''suppliers'', supplierTableQuery)], snd db))"
  "schema_exec db itemTableQuery =
     (0, None, if ''item'' \<in> fst ` set (fst db) then db
             else (fst db @ [(''item'', itemTableQuery)], snd db))"
  "schema_exec db userTableQuery =
     (0, None, if ''user'' \<in> fst ` set (fst db) then db
             else (fst db @ [(''user'', userTableQuery)], snd db))"
  "schema_exec db transactionTableQuery =
     (0, None, if ''transaction_records'' \<in> fst ` set (fst db) then db
             else (fst db @ [(''transaction_records'', transactionTableQuery)], snd db))"
proof -
  have a: "sql \<noteq> foreignKeySupport" if "create_table_name sql = Some n" for sql n
    using that table_names(6) by auto
  show "schema_exec db foreignKeySupport = (0, None, (fst db, True))"
    by (simp add: schema_exec_def)
  show "schema_exec db categoryTableQuery =
     (0, None, if ''category'' \<in> fst ` set (fst db) then db
             else (fst db @ [(''category'', categoryTableQuery)], snd db))"
    using a [OF table_names(1)] by (simp add: schema_exec_def table_names(1))
  show "schema_exec db supplierTableQuery =
     (0, None, if ''suppliers'' \<in> fst ` set (fst db) then db
             else (fst db @ [(''suppliers'', supplierTableQuery)], snd db))"
    using a [OF table_names(2)] by (simp add: schema_exec_def table_names(2))
  show "schema_exec db itemTableQuery =
     (0, None, if ''item'' \<in> fst ` set (fst db) then db
             else (fst db @ [(''item'', itemTableQuery)], snd db))"
    using a [OF table_names(3)] by (simp add: schema_exec_def table_names(3))
  show "schema_exec db userTableQuery =
     (0, None, if ''user'' \<in> fst ` set (fst db) then db
             else (fst db @ [(''user'', userTableQuery)], snd db))"
    using a [OF table_names(4)] by (simp add: schema_exec_def table_names(4))
  show "schema_exec db transactionTableQuery =
     (0, None, if ''transaction_records'' \<in> fst ` set (fst db) then db
             else (fst db @ [(''transaction_records'', transactionTableQuery)], snd db))"
    using a [OF table_names(5)] by (simp add: schema_exec_def table_names(5))
qed

lemma schema_store_first_run:
  "cerr (Database_init schema_store ([], False)) = []"
  "conn (Database_init schema_store ([], False)) =
     ([(''category'', categoryTableQuery), (''suppliers'', supplierTableQuery),
       (''item'', itemTableQuery), (''user'', userTableQuery),
       (''transaction_records'', transactionTableQuery)], True)"
  by (simp_all add: Database_init_def Let_def exec_logged_def schema_store_def
      schema_exec_queries SQLITE_OK_def)

theorem init_idempotent_witness:
  "cerr (Database_init schema_store ([], False)) = [] \<and>
   cerr (Database_init schema_store (conn (Database_init schema_store ([], False)))) = [] \<and>
   map fst (fst (conn (Database_init schema_store (conn (Database_init schema_store ([], False)))))) =
     [''category'', ''suppliers'', ''item'', ''user'', ''transaction_records''] \<and>
   snd (conn (Database_init schema_store (conn (Database_init schema_store ([], False)))))"
  using init_idempotent [OF schema_store_contract schema_store_first_run(1)]
  by (simp add: schema_store_first_run)

end
